theory Spec2Isabelle
  imports Main "HOL-Library.AList"
begin

section \<open>Values crossing the JavaScript boundary\<close>

text \<open>
  A JavaScript property that holds a string can also be \<^verbatim>\<open>undefined\<close> (the key is
  absent) or \<^verbatim>\<open>null\<close>. The ORM skips an \<^verbatim>\<open>undefined\<close> entry of a \<^verbatim>\<open>set\<close>
  object, writes the column default for an \<^verbatim>\<open>undefined\<close> entry of a \<^verbatim>\<open>values\<close>
  object, and writes SQL NULL for \<^verbatim>\<open>null\<close>, so the three cases are kept apart.
\<close>

datatype 'a js = Undef | JsNull | Val 'a

text \<open>A request body as the JSON body parser delivers it.\<close>

datatype json =
    JNull
  | JBool bool
  | JNum int
  | JStr string
  | JArr "json list"
  | JObj "(string \<times> json) list"

text \<open>
  Truthiness as \<^verbatim>\<open>!x\<close> tests it: a number is falsy when it is \<^verbatim>\<open>undefined\<close> or
  \<^verbatim>\<open>0\<close>, a string when it is \<^verbatim>\<open>undefined\<close> or empty.
\<close>

fun falsy_num :: "int option \<Rightarrow> bool" where
  "falsy_num None = True"
| "falsy_num (Some n) = (n = 0)"

fun falsy_str :: "string option \<Rightarrow> bool" where
  "falsy_str None = True"
| "falsy_str (Some s) = (s = [])"

section \<open>Session tuple and token responses\<close>

text \<open>
  The identity claims the code reads. \<^verbatim>\<open>claims["sub"]\<close> and \<^verbatim>\<open>claims.exp\<close> are
  absent or present; the profile claims may also be \<^verbatim>\<open>null\<close>.
\<close>

record claims =
  claim_sub :: "string option"
  claim_email :: "string js"
  claim_first_name :: "string js"
  claim_last_name :: "string js"
  claim_profile_image_url :: "string js"
  claim_exp :: "int option"

text \<open>
  A token endpoint response. \<open>tok_claims\<close> is what \<^verbatim>\<open>tokens.claims()\<close> returns:
  \<open>None\<close> when the response carries no ID token (the call returns \<^verbatim>\<open>undefined\<close>).
\<close>

record tokens =
  tok_claims :: "claims option"
  tok_access_token :: string
  tok_refresh_token :: "string option"

text \<open>The object passport keeps as \<^verbatim>\<open>req.user\<close> and serialises into the session.\<close>

record session_user =
  user_claims :: "claims option"
  access_token :: string
  refresh_token :: "string option"
  expires_at :: "int option"

text \<open>
  \<^verbatim>\<open>updateUserSession(user, tokens)\<close> of replitAuth.ts: four assignments, the last
  one \<^verbatim>\<open>user.expires_at = user.claims?.exp\<close>.
\<close>

definition updateUserSession :: "session_user \<Rightarrow> tokens \<Rightarrow> session_user" where
  "updateUserSession user tks =
     user\<lparr>user_claims := tok_claims tks,
          access_token := tok_access_token tks,
          refresh_token := tok_refresh_token tks,
          expires_at := (case tok_claims tks of None \<Rightarrow> None | Some c \<Rightarrow> claim_exp c)\<rparr>"

text \<open>
  googleAuth.ts works on the token set of its client library. Its \<^verbatim>\<open>claims\<close> member is
  a function that returns the claims of the ID token and throws when the set holds no ID
  token; the code also provides for a value whose \<^verbatim>\<open>claims\<close> is no function.
\<close>

datatype claims_member = NotAFunction | ClaimsThrow | ClaimsReturn claims

record token_set =
  ts_claims :: claims_member
  ts_access_token :: string
  ts_refresh_token :: "string option"

definition empty_claims :: claims where
  "empty_claims =
     \<lparr>claim_sub = None, claim_email = Undef, claim_first_name = Undef,
      claim_last_name = Undef, claim_profile_image_url = Undef, claim_exp = None\<rparr>"

text \<open>
  \<^verbatim>\<open>updateUserSession(user, tokens)\<close> of googleAuth.ts. Its first statement is
  \<^verbatim>\<open>user.claims = typeof tokens.claims === "function" ? tokens.claims() : {}\<close>; when
  the call throws, nothing has been assigned and the result is \<open>None\<close>.
\<close>

definition updateUserSession_google :: "session_user \<Rightarrow> token_set \<Rightarrow> session_user option" where
  "updateUserSession_google user tks =
     (case ts_claims tks of
        ClaimsThrow \<Rightarrow> None
      | NotAFunction \<Rightarrow>
          Some (user\<lparr>user_claims := Some empty_claims,
                     access_token := ts_access_token tks,
                     refresh_token := ts_refresh_token tks,
                     expires_at := claim_exp empty_claims\<rparr>)
      | ClaimsReturn c \<Rightarrow>
          Some (user\<lparr>user_claims := Some c,
                     access_token := ts_access_token tks,
                     refresh_token := ts_refresh_token tks,
                     expires_at := claim_exp c\<rparr>))"

section \<open>Durable storage\<close>

text \<open>
  The \<^verbatim>\<open>users\<close> table of the schema: \<^verbatim>\<open>id\<close> is the primary key, \<^verbatim>\<open>email\<close> is unique,
  \<^verbatim>\<open>role\<close> is not null with default \<^verbatim>\<open>'buyer'\<close>, the other columns are nullable. A
  table is the list of its rows.
\<close>

record User =
  user_id :: string
  email :: "string option"
  firstName :: "string option"
  lastName :: "string option"
  profileImageUrl :: "string option"
  role :: string
  phone :: "string option"
  bio :: "string option"
  createdAt :: "int option"
  updatedAt :: "int option"

text \<open>
  The argument of \<^verbatim>\<open>storage.upsertUser\<close>. A caller typed \<^verbatim>\<open>any\<close> can pass \<^verbatim>\<open>null\<close>
  for the text fields; \<^verbatim>\<open>id\<close> and \<^verbatim>\<open>role\<close> are given or left out.
\<close>

record UpsertUser =
  up_id :: "string option"
  up_email :: "string js"
  up_firstName :: "string js"
  up_lastName :: "string js"
  up_profileImageUrl :: "string js"
  up_role :: "string option"
  up_phone :: "string js"
  up_bio :: "string js"

datatype db_error = UniqueViolation | ForeignKeyViolation | Failure string

text \<open>What \<^verbatim>\<open>values\<close> writes into a nullable column, and what \<^verbatim>\<open>set\<close> leaves in it.\<close>

fun insert_value :: "'a js \<Rightarrow> 'a option" where
  "insert_value Undef = None"
| "insert_value JsNull = None"
| "insert_value (Val v) = Some v"

fun set_value :: "'a js \<Rightarrow> 'a option \<Rightarrow> 'a option" where
  "set_value Undef old = old"
| "set_value JsNull old = None"
| "set_value (Val v) old = Some v"

text \<open>\<^verbatim>\<open>DatabaseStorage.getUser\<close>: the row with that id, if any.\<close>

definition getUser :: "string \<Rightarrow> User list \<Rightarrow> User option" where
  "getUser i users = find (\<lambda>u. user_id u = i) users"

text \<open>The unique index on \<^verbatim>\<open>email\<close>: another row already holds this non-null email.\<close>

definition email_taken :: "User list \<Rightarrow> string \<Rightarrow> string option \<Rightarrow> bool" where
  "email_taken users i e =
     (case e of
        None \<Rightarrow> False
      | Some a \<Rightarrow> list_ex (\<lambda>u. user_id u \<noteq> i \<and> email u = Some a) users)"

text \<open>
  \<^verbatim>\<open>DatabaseStorage.upsertUser\<close>: \<^verbatim>\<open>INSERT ... ON CONFLICT (id) DO UPDATE SET\<close> with
  \<^verbatim>\<open>{...userData, updatedAt: new Date()}\<close>, \<^verbatim>\<open>RETURNING\<close> the row. \<open>now\<close> is the clock
  and \<open>uuid\<close> what \<^verbatim>\<open>gen_random_uuid()\<close> yields when no id is given. A violated unique
  index on \<^verbatim>\<open>email\<close> makes the statement fail and leaves the table as it was.
\<close>

definition upsertUser ::
  "int \<Rightarrow> string \<Rightarrow> UpsertUser \<Rightarrow> User list \<Rightarrow> (db_error + User) \<times> User list" where
  "upsertUser now uuid userData users =
     (let i = (case up_id userData of None \<Rightarrow> uuid | Some i \<Rightarrow> i) in
      case getUser i users of
        None \<Rightarrow>
          (let row =
             \<lparr>user_id = i,
              email = insert_value (up_email userData),
              firstName = insert_value (up_firstName userData),
              lastName = insert_value (up_lastName userData),
              profileImageUrl = insert_value (up_profileImageUrl userData),
              role = (case up_role userData of None \<Rightarrow> ''buyer'' | Some r \<Rightarrow> r),
              phone = insert_value (up_phone userData),
              bio = insert_value (up_bio userData),
              createdAt = Some now,
              updatedAt = Some now\<rparr>
           in if email_taken users i (email row) then (Inl UniqueViolation, users)
              else (Inr row, users @ [row]))
      | Some old \<Rightarrow>
          (let row =
             old\<lparr>email := set_value (up_email userData) (email old),
                 firstName := set_value (up_firstName userData) (firstName old),
                 lastName := set_value (up_lastName userData) (lastName old),
                 profileImageUrl := set_value (up_profileImageUrl userData) (profileImageUrl old),
                 role := (case up_role userData of None \<Rightarrow> role old | Some r \<Rightarrow> r),
                 phone := set_value (up_phone userData) (phone old),
                 bio := set_value (up_bio userData) (bio old),
                 updatedAt := Some now\<rparr>
           in if email_taken users i (email row) then (Inl UniqueViolation, users)
              else (Inr row, map (\<lambda>u. if user_id u = i then row else u) users)))"

text \<open>
  The \<^verbatim>\<open>favorites\<close> table: \<^verbatim>\<open>id\<close> is the primary key, \<^verbatim>\<open>(user_id, property_id)\<close> is
  unique, and both reference existing rows.
\<close>

record Favorite =
  fav_id :: string
  userId :: string
  propertyId :: string
  fav_createdAt :: "int option"

record InsertFavorite =
  ins_userId :: string
  ins_propertyId :: string

definition getFavorite :: "string \<Rightarrow> string \<Rightarrow> Favorite list \<Rightarrow> Favorite option" where
  "getFavorite u p favorites = find (\<lambda>f. userId f = u \<and> propertyId f = p) favorites"

text \<open>
  \<^verbatim>\<open>DatabaseStorage.addFavorite\<close>: \<^verbatim>\<open>INSERT ... ON CONFLICT DO NOTHING RETURNING\<close>; when
  no row comes back, the existing favorite is fetched, and the method throws if there is
  none. \<open>user_ids\<close> and \<open>property_ids\<close> are the keys the foreign keys point at.
\<close>

definition addFavorite ::
  "int \<Rightarrow> string \<Rightarrow> string list \<Rightarrow> string list \<Rightarrow> InsertFavorite \<Rightarrow> Favorite list
   \<Rightarrow> (db_error + Favorite) \<times> Favorite list" where
  "addFavorite now uuid user_ids property_ids insertFavorite favorites =
     (let row =
        \<lparr>fav_id = uuid, userId = ins_userId insertFavorite,
         propertyId = ins_propertyId insertFavorite, fav_createdAt = Some now\<rparr>
      in if list_ex (\<lambda>f. fav_id f = fav_id row
                        \<or> userId f = userId row \<and> propertyId f = propertyId row) favorites
         then
           (case getFavorite (ins_userId insertFavorite) (ins_propertyId insertFavorite)
                   favorites of
              Some existing \<Rightarrow> (Inr existing, favorites)
            | None \<Rightarrow> (Inl (Failure ''Failed to add favorite''), favorites))
         else if userId row \<in> set user_ids \<and> propertyId row \<in> set property_ids
           then (Inr row, favorites @ [row])
           else (Inl ForeignKeyViolation, favorites))"

text \<open>\<^verbatim>\<open>DatabaseStorage.removeFavorite\<close>: delete the matching rows, report whether any went.\<close>

definition removeFavorite :: "string \<Rightarrow> string \<Rightarrow> Favorite list \<Rightarrow> bool \<times> Favorite list" where
  "removeFavorite u p favorites =
     (list_ex (\<lambda>f. userId f = u \<and> propertyId f = p) favorites,
      filter (\<lambda>f. \<not> (userId f = u \<and> propertyId f = p)) favorites)"

section \<open>Requests and responses\<close>

text \<open>
  What the middleware sees of a request: the session identifier and \<^verbatim>\<open>req.user\<close>
  (\<^verbatim>\<open>req.isAuthenticated()\<close> is true exactly when \<^verbatim>\<open>req.user\<close> is set). With the
  identity (de)serialisers of \<^verbatim>\<open>setupAuth\<close>, \<^verbatim>\<open>req.user\<close> is the object stored in
  the session, so assigning to it updates the session record in place.
\<close>

record request =
  sessionID :: string
  req_user :: "session_user option"

text \<open>
  What a middleware or handler does with the request: hand it to the next stage,
  hand an error to the framework's error handler (\<^verbatim>\<open>next(err)\<close>), answer with a
  status and a JSON body, answer 200 with a user row (\<^verbatim>\<open>res.json(user)\<close>), or redirect.
\<close>

datatype outcome =
    Next
  | NextError string
  | Respond nat json
  | RespondUser User
  | Redirect string

definition unauthorized :: outcome where
  "unauthorized = Respond 401 (JObj [(''message'', JStr ''Unauthorized'')])"

section \<open>Authentication gate\<close>

text \<open>
  \<^verbatim>\<open>isAuthenticated\<close> of replitAuth.ts. \<open>now\<close> is \<^verbatim>\<open>Math.floor(Date.now() / 1000)\<close>;
  \<open>refreshTokenGrant\<close> is the provider: \<open>None\<close> when the refresh call throws. The
  result is the outcome, the request as the gate leaves it, and the refresh tokens
  sent to the provider, in order.
\<close>

definition isAuthenticated ::
  "int \<Rightarrow> (string \<Rightarrow> tokens option) \<Rightarrow> request \<Rightarrow> outcome \<times> request \<times> string list" where
  "isAuthenticated now refreshTokenGrant req =
     (case req_user req of
        None \<Rightarrow> (unauthorized, req, [])
      | Some user \<Rightarrow>
          (case expires_at user of
             None \<Rightarrow> (unauthorized, req, [])
           | Some e \<Rightarrow>
               if e = 0 then (unauthorized, req, [])
               else if now \<le> e then (Next, req, [])
               else
                 (case refresh_token user of
                    None \<Rightarrow> (unauthorized, req, [])
                  | Some refreshToken \<Rightarrow>
                      if refreshToken = [] then (unauthorized, req, [])
                      else
                        (case refreshTokenGrant refreshToken of
                           None \<Rightarrow> (unauthorized, req, [refreshToken])
                         | Some tokenResponse \<Rightarrow>
                             (Next,
                              req\<lparr>req_user := Some (updateUserSession user tokenResponse)\<rparr>,
                              [refreshToken])))))"

text \<open>
  \<^verbatim>\<open>isAuthenticated\<close> of googleAuth.ts: the same checks. The refresh call and the
  session update stand in one \<^verbatim>\<open>try\<close>, so a throw of either is answered 401 with the
  session as it was.
\<close>

definition isAuthenticated_google ::
  "int \<Rightarrow> (string \<Rightarrow> token_set option) \<Rightarrow> request \<Rightarrow> outcome \<times> request \<times> string list" where
  "isAuthenticated_google now refresh req =
     (case req_user req of
        None \<Rightarrow> (unauthorized, req, [])
      | Some user \<Rightarrow>
          (case expires_at user of
             None \<Rightarrow> (unauthorized, req, [])
           | Some e \<Rightarrow>
               if e = 0 then (unauthorized, req, [])
               else if now \<le> e then (Next, req, [])
               else
                 (case refresh_token user of
                    None \<Rightarrow> (unauthorized, req, [])
                  | Some refreshToken \<Rightarrow>
                      if refreshToken = [] then (unauthorized, req, [])
                      else
                        (case refresh refreshToken of
                           None \<Rightarrow> (unauthorized, req, [refreshToken])
                         | Some tokenSet \<Rightarrow>
                             (case updateUserSession_google user tokenSet of
                                None \<Rightarrow> (unauthorized, req, [refreshToken])
                              | Some user' \<Rightarrow>
                                  (Next, req\<lparr>req_user := Some user'\<rparr>, [refreshToken]))))))"

text \<open>
  Requests of one session served one after the other at the given clock readings, each
  seeing the session as the previous one left it.
\<close>

fun serve :: "(string \<Rightarrow> tokens option) \<Rightarrow> int list \<Rightarrow> request \<Rightarrow> outcome list \<times> request" where
  "serve p [] req = ([], req)"
| "serve p (t # ts) req =
     (case isAuthenticated t p req of
        (r, req', _) \<Rightarrow> (case serve p ts req' of (rs, req'') \<Rightarrow> (r # rs, req'')))"

section \<open>Login: the user upsert and the verify function\<close>

text \<open>
  \<^verbatim>\<open>upsertUser(claims)\<close> of replitAuth.ts: five fields copied from the claims, nothing
  else handed to the storage.
\<close>

definition upsertUser_auth ::
  "int \<Rightarrow> string \<Rightarrow> claims \<Rightarrow> User list \<Rightarrow> (db_error + User) \<times> User list" where
  "upsertUser_auth now uuid c users =
     upsertUser now uuid
       \<lparr>up_id = claim_sub c,
        up_email = claim_email c,
        up_firstName = claim_first_name c,
        up_lastName = claim_last_name c,
        up_profileImageUrl = claim_profile_image_url c,
        up_role = None, up_phone = Undef, up_bio = Undef\<rparr>
       users"

text \<open>
  The \<^verbatim>\<open>verify\<close> function of \<^verbatim>\<open>setupAuth\<close>: fill a new session user from the tokens,
  upsert the user, hand the session user on. Reading \<^verbatim>\<open>claims["sub"]\<close> of absent
  claims throws, as a failing upsert does.
\<close>

definition verify ::
  "int \<Rightarrow> string \<Rightarrow> tokens \<Rightarrow> User list \<Rightarrow> (db_error + session_user) \<times> User list" where
  "verify now uuid tks users =
     (let user = updateUserSession
           \<lparr>user_claims = None, access_token = [], refresh_token = None, expires_at = None\<rparr>
           tks
      in case tok_claims tks of
           None \<Rightarrow> (Inl (Failure ''TypeError''), users)
         | Some c \<Rightarrow>
             (case upsertUser_auth now uuid c users of
                (Inl err, users') \<Rightarrow> (Inl err, users')
              | (Inr _, users') \<Rightarrow> (Inr user, users')))"

section \<open>Role authorization gate\<close>

definition forbidden :: "string list \<Rightarrow> string \<Rightarrow> outcome" where
  "forbidden allowedRoles userRole =
     Respond 403
       (JObj [(''message'', JStr ''Insufficient permissions''),
              (''required'', JArr (map JStr allowedRoles)),
              (''current'', JStr userRole)])"

definition authorization_check_failed :: outcome where
  "authorization_check_failed =
     Respond 500 (JObj [(''message'', JStr ''Authorization check failed'')])"

text \<open>
  \<^verbatim>\<open>requireRole(allowedRoles)\<close>: run the authentication gate; when it calls on, read
  \<^verbatim>\<open>req.user.claims.sub\<close>, load the user with \<open>lookup\<close> (\<^verbatim>\<open>storage.getUser\<close>, which may
  reject), take \<^verbatim>\<open>dbUser?.role || 'buyer'\<close> and compare. Anything thrown on the way is
  answered with 500.
\<close>

definition requireRole ::
  "string list \<Rightarrow> int \<Rightarrow> (string \<Rightarrow> tokens option) \<Rightarrow> (string option \<Rightarrow> db_error + User option)
   \<Rightarrow> request \<Rightarrow> outcome \<times> request \<times> string list" where
  "requireRole allowedRoles now refreshTokenGrant lookup req =
     (case isAuthenticated now refreshTokenGrant req of
        (r, req', calls) \<Rightarrow>
          if r \<noteq> Next then (r, req', calls)
          else
            (case req_user req' of
               None \<Rightarrow> (authorization_check_failed, req', calls)
             | Some user \<Rightarrow>
                 (case user_claims user of
                    None \<Rightarrow> (authorization_check_failed, req', calls)
                  | Some c \<Rightarrow>
                      (case lookup (claim_sub c) of
                         Inl err \<Rightarrow> (authorization_check_failed, req', calls)
                       | Inr dbUser \<Rightarrow>
                           (let userRole =
                              (case dbUser of
                                 None \<Rightarrow> ''buyer''
                               | Some d \<Rightarrow> if role d = [] then ''buyer'' else role d)
                            in if userRole \<notin> set allowedRoles
                               then (forbidden allowedRoles userRole, req', calls)
                               else (Next, req', calls))))))"

definition requireAgent ::
  "int \<Rightarrow> (string \<Rightarrow> tokens option) \<Rightarrow> (string option \<Rightarrow> db_error + User option)
   \<Rightarrow> request \<Rightarrow> outcome \<times> request \<times> string list" where
  "requireAgent = requireRole [''agent'']"

section \<open>Self-service profile update\<close>

definition allowedFields :: "string list" where
  "allowedFields = [''phone'', ''bio'']"

text \<open>\<^verbatim>\<open>typeof v === 'string' || v === null\<close>\<close>

fun string_or_null :: "json \<Rightarrow> bool" where
  "string_or_null (JStr s) = True"
| "string_or_null JNull = True"
| "string_or_null _ = False"

text \<open>
  The filter and the reduce over \<^verbatim>\<open>Object.keys(updates)\<close>: an allowed key is copied
  into the result when its value is a string or \<^verbatim>\<open>null\<close>.
\<close>

definition filteredUpdates :: "(string \<times> json) list \<Rightarrow> (string \<times> json) list" where
  "filteredUpdates updates =
     fold (\<lambda>key obj.
             case map_of updates key of
               None \<Rightarrow> obj
             | Some v \<Rightarrow> if string_or_null v then AList.update key v obj else obj)
          (filter (\<lambda>key. key \<in> set allowedFields) (map fst updates))
          []"

text \<open>A key of the filtered object as a field of the upsert argument.\<close>

fun upsert_field :: "json option \<Rightarrow> string js" where
  "upsert_field (Some (JStr s)) = Val s"
| "upsert_field (Some JNull) = JsNull"
| "upsert_field _ = Undef"

definition invalid_input :: outcome where
  "invalid_input = Respond 400 (JObj [(''message'', JStr ''Invalid input data'')])"

definition no_valid_fields :: outcome where
  "no_valid_fields = Respond 400 (JObj [(''message'', JStr ''No valid fields to update'')])"

definition failed_to_update :: outcome where
  "failed_to_update = Respond 500 (JObj [(''message'', JStr ''Failed to update user'')])"

text \<open>
  The handler of \<^verbatim>\<open>PATCH /api/auth/user\<close>, entered after the authentication gate.
  \<open>body\<close> is \<^verbatim>\<open>req.body\<close>, \<open>None\<close> when nothing was parsed. The keys of an array are
  its indices, none of which is an allowed field.
\<close>

definition patch_auth_user ::
  "int \<Rightarrow> string \<Rightarrow> request \<Rightarrow> json option \<Rightarrow> User list \<Rightarrow> outcome \<times> User list" where
  "patch_auth_user now uuid req body users =
     (case req_user req of
        None \<Rightarrow> (failed_to_update, users)
      | Some user \<Rightarrow>
          (case user_claims user of
             None \<Rightarrow> (failed_to_update, users)
           | Some c \<Rightarrow>
               (case body of
                  Some (JObj updates) \<Rightarrow>
                    (let filtered = filteredUpdates updates in
                     if filtered = [] then (no_valid_fields, users)
                     else
                       (case upsertUser now uuid
                               \<lparr>up_id = claim_sub c,
                                up_email = Undef, up_firstName = Undef, up_lastName = Undef,
                                up_profileImageUrl = Undef, up_role = None,
                                up_phone = upsert_field (map_of filtered ''phone''),
                                up_bio = upsert_field (map_of filtered ''bio'')\<rparr>
                               users of
                          (Inl err, users') \<Rightarrow> (failed_to_update, users')
                        | (Inr updatedUser, users') \<Rightarrow> (RespondUser updatedUser, users')))
                | Some (JArr items) \<Rightarrow> (no_valid_fields, users)
                | _ \<Rightarrow> (invalid_input, users))))"


section \<open>Authorization-code callback\<close>

text \<open>
  What \<^verbatim>\<open>passport.authenticate\<close> hands to the custom callback: an error, no user, or
  the session user built by \<^verbatim>\<open>verify\<close>.
\<close>

datatype auth_result = AuthError string | AuthNoUser | AuthUser session_user

text \<open>
  The handler calls into the session middleware and passport, in this order:
  \<^verbatim>\<open>req.session.regenerate\<close>, \<^verbatim>\<open>req.logIn(user, ...)\<close>, \<^verbatim>\<open>req.session.save\<close>. Each
  call answers with an error or with nothing; what it does to the session is the
  library's business. The handler's result is its outcome and the calls it made.
\<close>

datatype session_call = Regenerate | LogIn session_user | Save

text \<open>
  The handler of \<^verbatim>\<open>GET /api/callback\<close> in replitAuth.ts. The callback it gives to
  \<^verbatim>\<open>req.session.save\<close> takes no argument, so the answer of the save is not read.
\<close>

definition callback ::
  "auth_result \<Rightarrow> string option \<Rightarrow> string option \<Rightarrow> string option
   \<Rightarrow> outcome \<times> session_call list" where
  "callback auth regenerate logIn save =
     (case auth of
        AuthError err \<Rightarrow> (NextError err, [])
      | AuthNoUser \<Rightarrow> (Redirect ''/api/login'', [])
      | AuthUser user \<Rightarrow>
          (case regenerate of
             Some sessionErr \<Rightarrow> (NextError sessionErr, [Regenerate])
           | None \<Rightarrow>
               (case logIn of
                  Some loginErr \<Rightarrow> (NextError loginErr, [Regenerate, LogIn user])
                | None \<Rightarrow> (Redirect ''/'', [Regenerate, LogIn user, Save]))))"

text \<open>
  The handler of \<^verbatim>\<open>GET /api/callback\<close> in googleAuth.ts: the same steps, and the
  error of \<^verbatim>\<open>req.session.save\<close> is passed on.
\<close>

definition callback_google ::
  "auth_result \<Rightarrow> string option \<Rightarrow> string option \<Rightarrow> string option
   \<Rightarrow> outcome \<times> session_call list" where
  "callback_google auth regenerate logIn save =
     (case auth of
        AuthError err \<Rightarrow> (NextError err, [])
      | AuthNoUser \<Rightarrow> (Redirect ''/api/login'', [])
      | AuthUser user \<Rightarrow>
          (case regenerate of
             Some sessionErr \<Rightarrow> (NextError sessionErr, [Regenerate])
           | None \<Rightarrow>
               (case logIn of
                  Some loginErr \<Rightarrow> (NextError loginErr, [Regenerate, LogIn user])
                | None \<Rightarrow>
                    (case save of
                       Some saveErr \<Rightarrow> (NextError saveErr, [Regenerate, LogIn user, Save])
                     | None \<Rightarrow> (Redirect ''/'', [Regenerate, LogIn user, Save])))))"

section \<open>Strategy registration\<close>








section \<open>The vocabulary of the contracts\<close>

definition session_expiry :: "request \<Rightarrow> int option" where
  "session_expiry req = (case req_user req of None \<Rightarrow> None | Some u \<Rightarrow> expires_at u)"

definition session_refresh_token :: "request \<Rightarrow> string option" where
  "session_refresh_token req =
     (case req_user req of None \<Rightarrow> None | Some u \<Rightarrow> refresh_token u)"

fun in_past :: "int \<Rightarrow> int option \<Rightarrow> bool" where
  "in_past now None = False"
| "in_past now (Some e) = (e < now)"

fun refresh_rejected :: "(string \<Rightarrow> tokens option) \<Rightarrow> string option \<Rightarrow> bool" where
  "refresh_rejected p None = False"
| "refresh_rejected p (Some rt) = (p rt = None)"

text \<open>
  The refresh attempt of the gate of googleAuth.ts fails: the provider rejects the
  token, or reading the claims of its answer throws.
\<close>

fun refresh_failed_google :: "(string \<Rightarrow> token_set option) \<Rightarrow> string option \<Rightarrow> bool" where
  "refresh_failed_google q None = False"
| "refresh_failed_google q (Some rt) =
     (case q rt of None \<Rightarrow> True | Some tks \<Rightarrow> ts_claims tks = ClaimsThrow)"

fun expiry_increased :: "int option \<Rightarrow> int option \<Rightarrow> bool" where
  "expiry_increased (Some before) (Some after) = (before < after)"
| "expiry_increased _ _ = False"

text \<open>
  The body offers a usable value for a key: the key is there and holds a string or
  \<^verbatim>\<open>null\<close>.
\<close>

definition accepted :: "(string \<times> json) list \<Rightarrow> string \<Rightarrow> bool" where
  "accepted updates key =
     (case map_of updates key of None \<Rightarrow> False | Some v \<Rightarrow> string_or_null v)"

text \<open>The upsert argument that carries the phone and bio entries of a body and nothing else.\<close>

definition profile_delta :: "string option \<Rightarrow> (string \<times> json) list \<Rightarrow> UpsertUser" where
  "profile_delta sub updates =
     \<lparr>up_id = sub, up_email = Undef, up_firstName = Undef, up_lastName = Undef,
      up_profileImageUrl = Undef, up_role = None,
      up_phone = upsert_field (map_of updates ''phone''),
      up_bio = upsert_field (map_of updates ''bio'')\<rparr>"

text \<open>No two favorites of the table share user and property.\<close>

definition unique_pairs :: "Favorite list \<Rightarrow> bool" where
  "unique_pairs favorites = distinct (map (\<lambda>f. (userId f, propertyId f)) favorites)"

section \<open>Scenarios\<close>

definition fresh_claims :: claims where
  "fresh_claims =
     \<lparr>claim_sub = Some ''u1'', claim_email = Val ''a@b.com'', claim_first_name = Undef,
      claim_last_name = Undef, claim_profile_image_url = Undef, claim_exp = Some 5000\<rparr>"

definition fresh_tokens :: tokens where
  "fresh_tokens =
     \<lparr>tok_claims = Some fresh_claims, tok_access_token = ''at-2'',
      tok_refresh_token = Some ''rt-2''\<rparr>"

text \<open>A refresh response without an ID token.\<close>

definition bare_tokens :: tokens where
  "bare_tokens =
     \<lparr>tok_claims = None, tok_access_token = ''at-2'', tok_refresh_token = None\<rparr>"

definition stale_user :: session_user where
  "stale_user =
     \<lparr>user_claims = Some (fresh_claims\<lparr>claim_exp := Some 1000\<rparr>), access_token = ''at-1'',
      refresh_token = Some ''rt-1'', expires_at = Some 1000\<rparr>"

definition stale_request :: request where
  "stale_request = \<lparr>sessionID = ''sid-1'', req_user = Some stale_user\<rparr>"

text \<open>A stored agent, and the same user as a buyer.\<close>

definition agent_row :: User where
  "agent_row =
     \<lparr>user_id = ''u1'', email = Some ''old@b.com'', firstName = Some ''Ann'', lastName = None,
      profileImageUrl = None, role = ''agent'', phone = None, bio = None,
      createdAt = Some 1, updatedAt = Some 1\<rparr>"

definition buyer_row :: User where
  "buyer_row = agent_row\<lparr>role := ''buyer''\<rparr>"

text \<open>
  A storage that is up: it looks a given id up in the users table, and finds no row for
  an id that is \<^verbatim>\<open>undefined\<close>.
\<close>

definition working_storage :: "User list \<Rightarrow> string option \<Rightarrow> db_error + User option" where
  "working_storage users i =
     (case i of
        None \<Rightarrow> Inr None
      | Some s \<Rightarrow> Inr (getUser s users))"

text \<open>The favorite a first call for user \<open>u1\<close> and property \<open>p1\<close> creates.\<close>

definition first_favorite :: Favorite where
  "first_favorite =
     \<lparr>fav_id = ''f1'', userId = ''u1'', propertyId = ''p1'', fav_createdAt = Some 5\<rparr>"

text \<open>A request that carries no login.\<close>

definition anonymous_request :: request where
  "anonymous_request = \<lparr>sessionID = ''sid-0'', req_user = None\<rparr>"

section \<open>Properties of the authentication gate\<close>

lemma unauthorized_neq_Next [simp]: "unauthorized \<noteq> Next" "Next \<noteq> unauthorized"
  by (simp_all add: unauthorized_def)

lemma gate_unauthorized_iff:
  "fst (isAuthenticated now p req) = unauthorized \<longleftrightarrow>
     req_user req = None
     \<or> falsy_num (session_expiry req)
     \<or> in_past now (session_expiry req) \<and> falsy_str (session_refresh_token req)
     \<or> in_past now (session_expiry req) \<and> \<not> falsy_str (session_refresh_token req)
        \<and> refresh_rejected p (session_refresh_token req)"
  by (auto simp: isAuthenticated_def session_expiry_def session_refresh_token_def
      split: option.splits)

lemma gate_outcomes:
  "fst (isAuthenticated now p req) = unauthorized \<or> fst (isAuthenticated now p req) = Next"
  by (auto simp: isAuthenticated_def split: option.splits)

lemma gate_valid_passes:
  "\<not> falsy_num (session_expiry req) \<Longrightarrow> \<not> in_past now (session_expiry req) \<Longrightarrow>
   isAuthenticated now p req = (Next, req, [])"
  by (auto simp: isAuthenticated_def session_expiry_def split: option.splits)

lemma gate_refresh_accepted:
  "req_user req = Some u \<Longrightarrow> expires_at u = Some e \<Longrightarrow> e \<noteq> 0 \<Longrightarrow> e < now \<Longrightarrow>
   refresh_token u = Some rt \<Longrightarrow> rt \<noteq> [] \<Longrightarrow> p rt = Some tk \<Longrightarrow>
   isAuthenticated now p req = (Next, req\<lparr>req_user := Some (updateUserSession u tk)\<rparr>, [rt])"
  by (simp add: isAuthenticated_def)

lemma gate_refresh_rejected:
  "req_user req = Some u \<Longrightarrow> expires_at u = Some e \<Longrightarrow> e \<noteq> 0 \<Longrightarrow> e < now \<Longrightarrow>
   refresh_token u = Some rt \<Longrightarrow> rt \<noteq> [] \<Longrightarrow> p rt = None \<Longrightarrow>
   isAuthenticated now p req = (unauthorized, req, [rt])"
  by (simp add: isAuthenticated_def)

lemma gate_passes_after_refresh_only:
  "fst (isAuthenticated now p req) = Next \<Longrightarrow> in_past now (session_expiry req) \<Longrightarrow>
   \<exists>u rt tk. req_user req = Some u \<and> refresh_token u = Some rt \<and> p rt = Some tk \<and>
     isAuthenticated now p req = (Next, req\<lparr>req_user := Some (updateUserSession u tk)\<rparr>, [rt])"
  by (auto simp: isAuthenticated_def session_expiry_def split: option.splits if_splits)

lemma gate_rejection_keeps_request:
  "fst (isAuthenticated now p req) = unauthorized \<Longrightarrow>
   fst (snd (isAuthenticated now p req)) = req"
  by (auto simp: isAuthenticated_def split: option.splits if_splits)

lemma gate_google_unauthorized_iff:
  "fst (isAuthenticated_google now q req) = unauthorized \<longleftrightarrow>
     req_user req = None
     \<or> falsy_num (session_expiry req)
     \<or> in_past now (session_expiry req) \<and> falsy_str (session_refresh_token req)
     \<or> in_past now (session_expiry req) \<and> \<not> falsy_str (session_refresh_token req)
        \<and> refresh_failed_google q (session_refresh_token req)"
  by (auto simp: isAuthenticated_google_def updateUserSession_google_def session_expiry_def
      session_refresh_token_def split: option.splits claims_member.splits)

lemma gate_google_outcomes:
  "fst (isAuthenticated_google now q req) = unauthorized
   \<or> fst (isAuthenticated_google now q req) = Next"
  by (auto simp: isAuthenticated_google_def split: option.splits)

lemma gate_google_valid_passes:
  "\<not> falsy_num (session_expiry req) \<Longrightarrow> \<not> in_past now (session_expiry req) \<Longrightarrow>
   isAuthenticated_google now q req = (Next, req, [])"
  by (auto simp: isAuthenticated_google_def session_expiry_def split: option.splits)

lemma gate_google_rejection_keeps_request:
  "fst (isAuthenticated_google now q req) = unauthorized \<Longrightarrow>
   fst (snd (isAuthenticated_google now q req)) = req"
  by (auto simp: isAuthenticated_google_def split: option.splits if_splits)

lemma gate_google_passes_after_refresh_only:
  "fst (isAuthenticated_google now q req) = Next \<Longrightarrow> in_past now (session_expiry req) \<Longrightarrow>
   \<exists>u u' rt tks. req_user req = Some u \<and> refresh_token u = Some rt \<and> q rt = Some tks \<and>
     updateUserSession_google u tks = Some u' \<and>
     isAuthenticated_google now q req = (Next, req\<lparr>req_user := Some u'\<rparr>, [rt])"
  by (auto simp: isAuthenticated_google_def session_expiry_def split: option.splits if_splits)

text \<open>
  C1 (as amended). The gate answers 401 \<open>{message: "Unauthorized"}\<close> exactly when there
  is no session user, or \<open>expires_at\<close> is missing or zero, or \<open>expires_at\<close> is in the past
  and the refresh token is missing or empty, or \<open>expires_at\<close> is in the past and the
  refresh attempt fails: the provider rejects the refresh token or, in googleAuth.ts,
  reading the claims of its answer throws. In every other case the gate calls the next
  stage: with the request untouched and no provider call when \<open>expires_at\<close> is not in
  the past, and with the session tuple overwritten from the refresh response when a
  refresh succeeded. A request answered 401 is left as it was. This holds of the gate
  of replitAuth.ts with its provider \<open>p\<close> and of the gate of googleAuth.ts with its
  provider \<open>q\<close>.
\<close>

theorem authentication_gate_contract:
  "(fst (isAuthenticated now p req) = unauthorized \<longleftrightarrow>
      req_user req = None
      \<or> falsy_num (session_expiry req)
      \<or> in_past now (session_expiry req) \<and> falsy_str (session_refresh_token req)
      \<or> in_past now (session_expiry req) \<and> \<not> falsy_str (session_refresh_token req)
         \<and> refresh_rejected p (session_refresh_token req))
   \<and> (fst (isAuthenticated now p req) = unauthorized \<or> fst (isAuthenticated now p req) = Next)
   \<and> (\<not> falsy_num (session_expiry req) \<and> \<not> in_past now (session_expiry req) \<longrightarrow>
        isAuthenticated now p req = (Next, req, [])
        \<and> isAuthenticated_google now q req = (Next, req, []))
   \<and> (fst (isAuthenticated now p req) = Next \<and> in_past now (session_expiry req) \<longrightarrow>
        (\<exists>u rt tk. req_user req = Some u \<and> refresh_token u = Some rt \<and> p rt = Some tk \<and>
           isAuthenticated now p req =
             (Next, req\<lparr>req_user := Some (updateUserSession u tk)\<rparr>, [rt])))
   \<and> (fst (isAuthenticated now p req) = unauthorized \<longrightarrow>
        fst (snd (isAuthenticated now p req)) = req)
   \<and> (fst (isAuthenticated_google now q req) = unauthorized \<longleftrightarrow>
      req_user req = None
      \<or> falsy_num (session_expiry req)
      \<or> in_past now (session_expiry req) \<and> falsy_str (session_refresh_token req)
      \<or> in_past now (session_expiry req) \<and> \<not> falsy_str (session_refresh_token req)
         \<and> refresh_failed_google q (session_refresh_token req))
   \<and> (fst (isAuthenticated_google now q req) = unauthorized
        \<or> fst (isAuthenticated_google now q req) = Next)
   \<and> (fst (isAuthenticated_google now q req) = unauthorized \<longrightarrow>
        fst (snd (isAuthenticated_google now q req)) = req)
   \<and> (fst (isAuthenticated_google now q req) = Next \<and> in_past now (session_expiry req) \<longrightarrow>
        (\<exists>u u' rt tks. req_user req = Some u \<and> refresh_token u = Some rt \<and> q rt = Some tks \<and>
           updateUserSession_google u tks = Some u' \<and>
           isAuthenticated_google now q req = (Next, req\<lparr>req_user := Some u'\<rparr>, [rt])))"
proof (intro conjI)
  show "fst (isAuthenticated now p req) = unauthorized \<longleftrightarrow>
      req_user req = None
      \<or> falsy_num (session_expiry req)
      \<or> in_past now (session_expiry req) \<and> falsy_str (session_refresh_token req)
      \<or> in_past now (session_expiry req) \<and> \<not> falsy_str (session_refresh_token req)
         \<and> refresh_rejected p (session_refresh_token req)"
    by (rule gate_unauthorized_iff)
  show "fst (isAuthenticated now p req) = unauthorized \<or> fst (isAuthenticated now p req) = Next"
    by (rule gate_outcomes)
  show "\<not> falsy_num (session_expiry req) \<and> \<not> in_past now (session_expiry req) \<longrightarrow>
        isAuthenticated now p req = (Next, req, [])
        \<and> isAuthenticated_google now q req = (Next, req, [])"
    using gate_valid_passes gate_google_valid_passes by blast
  show "fst (isAuthenticated now p req) = Next \<and> in_past now (session_expiry req) \<longrightarrow>
        (\<exists>u rt tk. req_user req = Some u \<and> refresh_token u = Some rt \<and> p rt = Some tk \<and>
           isAuthenticated now p req =
             (Next, req\<lparr>req_user := Some (updateUserSession u tk)\<rparr>, [rt]))"
    using gate_passes_after_refresh_only by blast
  show "fst (isAuthenticated now p req) = unauthorized \<longrightarrow>
        fst (snd (isAuthenticated now p req)) = req"
    using gate_rejection_keeps_request by blast
  show "fst (isAuthenticated_google now q req) = unauthorized \<longleftrightarrow>
      req_user req = None
      \<or> falsy_num (session_expiry req)
      \<or> in_past now (session_expiry req) \<and> falsy_str (session_refresh_token req)
      \<or> in_past now (session_expiry req) \<and> \<not> falsy_str (session_refresh_token req)
         \<and> refresh_failed_google q (session_refresh_token req)"
    by (rule gate_google_unauthorized_iff)
  show "fst (isAuthenticated_google now q req) = unauthorized
        \<or> fst (isAuthenticated_google now q req) = Next"
    by (rule gate_google_outcomes)
  show "fst (isAuthenticated_google now q req) = unauthorized \<longrightarrow>
        fst (snd (isAuthenticated_google now q req)) = req"
    using gate_google_rejection_keeps_request by blast
  show "fst (isAuthenticated_google now q req) = Next \<and> in_past now (session_expiry req) \<longrightarrow>
        (\<exists>u u' rt tks. req_user req = Some u \<and> refresh_token u = Some rt \<and> q rt = Some tks \<and>
           updateUserSession_google u tks = Some u' \<and>
           isAuthenticated_google now q req = (Next, req\<lparr>req_user := Some u'\<rparr>, [rt]))"
    using gate_google_passes_after_refresh_only by blast
qed

text \<open>
  The contract at an unexpired session: clock 900, expiry 1000. Both gates pass the
  request on as it came and ask the provider nothing.
\<close>

theorem authentication_gate_contract_witness:
  "isAuthenticated 900 Map.empty stale_request = (Next, stale_request, [])
   \<and> isAuthenticated_google 900 Map.empty stale_request = (Next, stale_request, [])"
proof -
  have valid: "\<not> falsy_num (session_expiry stale_request)
      \<and> \<not> in_past 900 (session_expiry stale_request)"
    by (simp add: session_expiry_def stale_request_def stale_user_def)
  from authentication_gate_contract [of 900 Map.empty stale_request Map.empty] valid
  show ?thesis by blast
qed

text \<open>
  C1 as stated fails twice. With \<open>expires_at = 0\<close> and a refresh token the provider
  accepts, the gate answers 401 although a session user is present, \<open>expires_at\<close> is
  present, a refresh token is present and no refresh was attempted. And with an expired
  session whose refresh succeeds, the gate passes the request on, but not unmodified.
\<close>

theorem authentication_gate_counterexample:
  "fst (isAuthenticated 2000 [''rt-1'' \<mapsto> fresh_tokens]
          (stale_request\<lparr>req_user := Some (stale_user\<lparr>expires_at := Some 0\<rparr>)\<rparr>)) = unauthorized
   \<and> snd (snd (isAuthenticated 2000 [''rt-1'' \<mapsto> fresh_tokens]
          (stale_request\<lparr>req_user := Some (stale_user\<lparr>expires_at := Some 0\<rparr>)\<rparr>))) = []
   \<and> expires_at (stale_user\<lparr>expires_at := Some 0\<rparr>) \<noteq> None
   \<and> refresh_token (stale_user\<lparr>expires_at := Some 0\<rparr>) \<noteq> None
   \<and> fst (isAuthenticated 2000 [''rt-1'' \<mapsto> fresh_tokens] stale_request) = Next
   \<and> fst (snd (isAuthenticated 2000 [''rt-1'' \<mapsto> fresh_tokens] stale_request)) \<noteq> stale_request"
  by (simp add: isAuthenticated_def stale_request_def stale_user_def updateUserSession_def
      fresh_tokens_def fresh_claims_def)

section \<open>Silent refresh\<close>

text \<open>
  C4 (as amended). For a session whose \<open>expires_at\<close> is not zero and in the past and
  whose refresh token is not empty and accepted by the provider, the gate makes exactly
  one refresh call, keeps the session identifier, and overwrites claims, access token,
  refresh token and expiry from the response; the new \<open>expires_at\<close> is the response's
  \<open>exp\<close> claim (absent when the response has no claims or no \<open>exp\<close>). It is greater than
  the old one exactly when that claim is, which is the case whenever the claim is not
  itself in the past.
\<close>

theorem refresh_overwrites_session:
  assumes "req_user req = Some u" and "expires_at u = Some e" and "e \<noteq> 0" and "e < now"
    and "refresh_token u = Some rt" and "rt \<noteq> []" and "p rt = Some tk"
  shows "isAuthenticated now p req =
           (Next,
            \<lparr>sessionID = sessionID req,
             req_user = Some
               \<lparr>user_claims = tok_claims tk, access_token = tok_access_token tk,
                refresh_token = tok_refresh_token tk,
                expires_at = (case tok_claims tk of None \<Rightarrow> None | Some c \<Rightarrow> claim_exp c)\<rparr>\<rparr>,
            [rt])
         \<and> (expiry_increased (Some e) (session_expiry (fst (snd (isAuthenticated now p req))))
              \<longleftrightarrow> (\<exists>c e'. tok_claims tk = Some c \<and> claim_exp c = Some e' \<and> e < e'))
         \<and> (\<forall>c e'. tok_claims tk = Some c \<and> claim_exp c = Some e' \<and> now \<le> e' \<longrightarrow>
              expiry_increased (Some e) (session_expiry (fst (snd (isAuthenticated now p req)))))"
proof -
  have run: "isAuthenticated now p req =
      (Next, req\<lparr>req_user := Some (updateUserSession u tk)\<rparr>, [rt])"
    using assms by (rule gate_refresh_accepted)
  have shape: "req\<lparr>req_user := Some (updateUserSession u tk)\<rparr> =
      \<lparr>sessionID = sessionID req,
       req_user = Some
         \<lparr>user_claims = tok_claims tk, access_token = tok_access_token tk,
          refresh_token = tok_refresh_token tk,
          expires_at = (case tok_claims tk of None \<Rightarrow> None | Some c \<Rightarrow> claim_exp c)\<rparr>\<rparr>"
    by (simp add: updateUserSession_def)
  have expiry: "session_expiry (fst (snd (isAuthenticated now p req))) =
      (case tok_claims tk of None \<Rightarrow> None | Some c \<Rightarrow> claim_exp c)"
    by (simp add: run session_expiry_def updateUserSession_def)
  have incr: "expiry_increased (Some e) (session_expiry (fst (snd (isAuthenticated now p req))))
      \<longleftrightarrow> (\<exists>c e'. tok_claims tk = Some c \<and> claim_exp c = Some e' \<and> e < e')"
    unfolding expiry by (cases "tok_claims tk"; cases "claim_exp (the (tok_claims tk))") auto
  have "\<forall>c e'. tok_claims tk = Some c \<and> claim_exp c = Some e' \<and> now \<le> e' \<longrightarrow>
      expiry_increased (Some e) (session_expiry (fst (snd (isAuthenticated now p req))))"
    using \<open>e < now\<close> unfolding expiry by auto
  with run shape incr show ?thesis by simp
qed

text \<open>Clock 2000, expiry 1000, a provider that answers with an \<open>exp\<close> of 5000.\<close>

theorem refresh_overwrites_session_witness:
  "isAuthenticated 2000 [''rt-1'' \<mapsto> fresh_tokens] stale_request =
     (Next,
      \<lparr>sessionID = ''sid-1'',
       req_user = Some
         \<lparr>user_claims = Some fresh_claims, access_token = ''at-2'',
          refresh_token = Some ''rt-2'', expires_at = Some 5000\<rparr>\<rparr>,
      [''rt-1''])
   \<and> expiry_increased (Some 1000)
        (session_expiry (fst (snd (isAuthenticated 2000 [''rt-1'' \<mapsto> fresh_tokens] stale_request))))"
  using refresh_overwrites_session
    [of stale_request stale_user 1000 2000 "''rt-1''" "[''rt-1'' \<mapsto> fresh_tokens]" fresh_tokens]
  by (simp add: stale_request_def stale_user_def fresh_tokens_def fresh_claims_def
      session_expiry_def)

text \<open>
  C4 as stated fails twice. The provider accepts the refresh token and answers without
  an ID token: the gate passes the request on after one refresh call, and the session's
  \<open>expires_at\<close> is then absent, not greater than before. And with \<open>expires_at = 0\<close>,
  which is in the past, and a refresh token the provider accepts, the gate answers 401
  and makes no refresh call at all.
\<close>

theorem refresh_expiry_counterexample:
  "fst (isAuthenticated 2000 [''rt-1'' \<mapsto> bare_tokens] stale_request) = Next
   \<and> snd (snd (isAuthenticated 2000 [''rt-1'' \<mapsto> bare_tokens] stale_request)) = [''rt-1'']
   \<and> session_expiry stale_request = Some 1000
   \<and> session_expiry (fst (snd (isAuthenticated 2000 [''rt-1'' \<mapsto> bare_tokens] stale_request))) = None
   \<and> \<not> expiry_increased (session_expiry stale_request)
         (session_expiry (fst (snd (isAuthenticated 2000 [''rt-1'' \<mapsto> bare_tokens] stale_request))))
   \<and> in_past 2000 (Some 0)
   \<and> isAuthenticated 2000 [''rt-1'' \<mapsto> fresh_tokens]
        (stale_request\<lparr>req_user := Some (stale_user\<lparr>expires_at := Some 0\<rparr>)\<rparr>) =
       (unauthorized, stale_request\<lparr>req_user := Some (stale_user\<lparr>expires_at := Some 0\<rparr>)\<rparr>, [])"
  by (simp add: isAuthenticated_def stale_request_def stale_user_def updateUserSession_def
      bare_tokens_def session_expiry_def)

section \<open>Rejected refresh\<close>

lemma serve_rejected:
  assumes "req_user req = Some u" and "expires_at u = Some e" and "e \<noteq> 0"
    and "refresh_token u = Some rt" and "rt \<noteq> []" and "p rt = None"
  shows "\<forall>t\<in>set ts. e < t \<Longrightarrow> serve p ts req = (replicate (length ts) unauthorized, req)"
proof (induction ts)
  case Nil
  show ?case by simp
next
  case (Cons t ts)
  then have "e < t" and rest: "serve p ts req = (replicate (length ts) unauthorized, req)"
    by simp_all
  from assms(1-3) \<open>e < t\<close> assms(4-6)
  have "isAuthenticated t p req = (unauthorized, req, [rt])"
    by (rule gate_refresh_rejected)
  with rest show ?case by simp
qed

text \<open>
  C5. For a session whose \<open>expires_at\<close> is in the past and whose refresh token the
  provider rejects, the gate answers 401 after one refresh attempt and leaves the
  request, and with it the session record, exactly as it was; so every later request of
  that session, served at any later clock readings, is answered 401 again and the record
  still stands unchanged.
\<close>

theorem rejected_refresh_keeps_session:
  assumes "req_user req = Some u" and "expires_at u = Some e" and "e \<noteq> 0" and "e < now"
    and "refresh_token u = Some rt" and "rt \<noteq> []" and "p rt = None"
  shows "isAuthenticated now p req = (unauthorized, req, [rt])
         \<and> (\<forall>ts. (\<forall>t\<in>set ts. now \<le> t) \<longrightarrow>
               serve p ts req = (replicate (length ts) unauthorized, req))"
proof -
  have first: "isAuthenticated now p req = (unauthorized, req, [rt])"
    using assms by (rule gate_refresh_rejected)
  have "serve p ts req = (replicate (length ts) unauthorized, req)"
    if "\<forall>t\<in>set ts. now \<le> t" for ts
  proof -
    from that \<open>e < now\<close> have "\<forall>t\<in>set ts. e < t" by auto
    with assms(1-3,5-7) show ?thesis by (rule serve_rejected)
  qed
  with first show ?thesis by blast
qed

text \<open>Clock 2000, expiry 1000, a provider that knows no refresh token; two more requests.\<close>

theorem rejected_refresh_keeps_session_witness:
  "isAuthenticated 2000 Map.empty stale_request = (unauthorized, stale_request, [''rt-1''])
   \<and> serve Map.empty [2001, 2600] stale_request = ([unauthorized, unauthorized], stale_request)"
proof -
  have later: "\<forall>t\<in>set [2001, 2600]. (2000::int) \<le> t" by simp
  have "isAuthenticated 2000 Map.empty stale_request = (unauthorized, stale_request, [''rt-1''])
      \<and> (\<forall>ts. (\<forall>t\<in>set ts. 2000 \<le> t) \<longrightarrow>
            serve Map.empty ts stale_request = (replicate (length ts) unauthorized, stale_request))"
    using rejected_refresh_keeps_session
      [of stale_request stale_user 1000 2000 "''rt-1''" Map.empty]
    by (simp add: stale_request_def stale_user_def)
  with later show ?thesis by (simp del: serve.simps)
qed

section \<open>Properties of the user upsert\<close>

lemma getUser_Some_id: "getUser i users = Some u \<Longrightarrow> user_id u = i"
  by (auto simp: getUser_def find_Some_iff)

lemma getUser_append:
  "getUser j (users @ [row]) =
     (case getUser j users of
        Some u \<Rightarrow> Some u
      | None \<Rightarrow> if user_id row = j then Some row else None)"
  by (induction users) (auto simp: getUser_def)

lemma getUser_replace:
  "user_id row = i \<Longrightarrow>
   getUser j (map (\<lambda>u. if user_id u = i then row else u) users) =
     (if j = i then (case getUser i users of None \<Rightarrow> None | Some u \<Rightarrow> Some row)
      else getUser j users)"
  by (induction users) (auto simp: getUser_def)

lemma upsertUser_lookup:
  "getUser j (snd (upsertUser now uuid d users)) =
     (case fst (upsertUser now uuid d users) of
        Inl e \<Rightarrow> getUser j users
      | Inr row \<Rightarrow> if j = user_id row then Some row else getUser j users)"
  by (auto simp: upsertUser_def Let_def getUser_append getUser_replace
      dest: getUser_Some_id split: option.splits)

lemma upsertUser_failed:
  "fst (upsertUser now uuid d users) = Inl e \<Longrightarrow> snd (upsertUser now uuid d users) = users"
  by (auto simp: upsertUser_def Let_def split: option.splits if_splits)

lemma upsertUser_row_id:
  assumes "fst (upsertUser now uuid d users) = Inr row"
  shows "user_id row = (case up_id d of None \<Rightarrow> uuid | Some i \<Rightarrow> i)"
proof (cases "getUser (case up_id d of None \<Rightarrow> uuid | Some i \<Rightarrow> i) users")
  case None
  with assms show ?thesis
    by (auto simp: upsertUser_def Let_def split: if_splits)
next
  case (Some old)
  then have "user_id old = (case up_id d of None \<Rightarrow> uuid | Some i \<Rightarrow> i)"
    by (rule getUser_Some_id)
  with Some assms show ?thesis
    by (auto simp: upsertUser_def Let_def split: if_splits)
qed

lemma upsertUser_updated_row:
  assumes "fst (upsertUser now uuid d users) = Inr row"
    and "getUser (user_id row) users = Some old"
  shows "row = old\<lparr>email := set_value (up_email d) (email old),
             firstName := set_value (up_firstName d) (firstName old),
             lastName := set_value (up_lastName d) (lastName old),
             profileImageUrl := set_value (up_profileImageUrl d) (profileImageUrl old),
             role := (case up_role d of None \<Rightarrow> role old | Some r \<Rightarrow> r),
             phone := set_value (up_phone d) (phone old),
             bio := set_value (up_bio d) (bio old),
             updatedAt := Some now\<rparr>"
proof -
  have "getUser (case up_id d of None \<Rightarrow> uuid | Some i \<Rightarrow> i) users = Some old"
    using assms upsertUser_row_id [OF assms(1)] by simp
  with assms(1) show ?thesis
    by (auto simp: upsertUser_def Let_def split: if_splits)
qed

lemma upsertUser_keeps_role:
  assumes "up_role d = None" and "getUser j users = Some u"
  shows "\<exists>u'. getUser j (snd (upsertUser now uuid d users)) = Some u' \<and> role u' = role u"
proof (cases "fst (upsertUser now uuid d users)")
  case (Inl e)
  then show ?thesis using assms by (simp add: upsertUser_lookup)
next
  case (Inr row)
  show ?thesis
  proof (cases "j = user_id row")
    case True
    with Inr assms have "role row = role u"
      using upsertUser_updated_row [of now uuid d users row u] by (cases row; cases u) simp
    with Inr True show ?thesis by (simp add: upsertUser_lookup)
  next
    case False
    with Inr assms show ?thesis by (simp add: upsertUser_lookup)
  qed
qed

lemma upsertUser_auth_success_iff:
  assumes "claim_sub c = Some i" and "getUser i users = Some old"
  shows "(\<exists>row. fst (upsertUser_auth now uuid c users) = Inr row)
         \<longleftrightarrow> \<not> email_taken users i (set_value (claim_email c) (email old))"
  using assms by (simp add: upsertUser_auth_def upsertUser_def Let_def)

lemma verify_table:
  "snd (verify now uuid tks users) =
     (case tok_claims tks of
        None \<Rightarrow> users
      | Some c \<Rightarrow> snd (upsertUser_auth now uuid c users))"
  by (simp add: verify_def Let_def split: option.splits prod.splits sum.splits)

text \<open>
  C2. An upsert driven by identity claims (\<open>upsertUser_auth\<close>, and \<open>verify\<close>, which
  calls it at login) hands the storage no role, so every user stored before it is still
  stored after it with the same role, whether the statement succeeds or fails. For the
  user the claims name, the statement succeeds unless the new email belongs to another
  user; when it succeeds the stored row has the same id and role, and email, first name,
  last name and profile image are what the claims give: a claim value replaces the stored
  one, a \<^verbatim>\<open>null\<close> claim clears it, and an absent claim leaves it (\<open>set_value\<close>).
\<close>

theorem claims_upsert_keeps_role:
  "(\<forall>j u. getUser j users = Some u \<longrightarrow>
      (\<exists>u'. getUser j (snd (upsertUser_auth now uuid c users)) = Some u' \<and> role u' = role u))
   \<and> (\<forall>j u. getUser j users = Some u \<longrightarrow>
      (\<exists>u'. getUser j (snd (verify now uuid tks users)) = Some u' \<and> role u' = role u))
   \<and> (\<forall>i old. claim_sub c = Some i \<and> getUser i users = Some old \<longrightarrow>
        ((\<exists>row. fst (upsertUser_auth now uuid c users) = Inr row)
           \<longleftrightarrow> \<not> email_taken users i (set_value (claim_email c) (email old))))
   \<and> (\<forall>i old row. claim_sub c = Some i \<and> getUser i users = Some old
          \<and> fst (upsertUser_auth now uuid c users) = Inr row \<longrightarrow>
        getUser i (snd (upsertUser_auth now uuid c users)) = Some row
        \<and> user_id row = i
        \<and> role row = role old
        \<and> email row = set_value (claim_email c) (email old)
        \<and> firstName row = set_value (claim_first_name c) (firstName old)
        \<and> lastName row = set_value (claim_last_name c) (lastName old)
        \<and> profileImageUrl row = set_value (claim_profile_image_url c) (profileImageUrl old))"
proof -
  have keep: "\<exists>u'. getUser j (snd (upsertUser_auth now uuid c' users)) = Some u' \<and> role u' = role u"
    if "getUser j users = Some u" for j u c'
    unfolding upsertUser_auth_def by (rule upsertUser_keeps_role) (simp_all add: that)
  have keep_verify: "\<exists>u'. getUser j (snd (verify now uuid tks users)) = Some u' \<and> role u' = role u"
    if "getUser j users = Some u" for j u
    using keep [OF that] that by (cases "tok_claims tks") (simp_all add: verify_table)
  have row: "getUser i (snd (upsertUser_auth now uuid c users)) = Some row
        \<and> user_id row = i
        \<and> role row = role old
        \<and> email row = set_value (claim_email c) (email old)
        \<and> firstName row = set_value (claim_first_name c) (firstName old)
        \<and> lastName row = set_value (claim_last_name c) (lastName old)
        \<and> profileImageUrl row = set_value (claim_profile_image_url c) (profileImageUrl old)"
    if sub: "claim_sub c = Some i" and old: "getUser i users = Some old"
      and ok: "fst (upsertUser_auth now uuid c users) = Inr row" for i old row
  proof -
    let ?d = "\<lparr>up_id = claim_sub c, up_email = claim_email c,
        up_firstName = claim_first_name c, up_lastName = claim_last_name c,
        up_profileImageUrl = claim_profile_image_url c,
        up_role = None, up_phone = Undef, up_bio = Undef\<rparr>"
    from ok have ok': "fst (upsertUser now uuid ?d users) = Inr row"
      by (simp add: upsertUser_auth_def)
    have id: "user_id row = i"
      using upsertUser_row_id [OF ok'] sub by simp
    have shape: "row = old\<lparr>email := set_value (claim_email c) (email old),
             firstName := set_value (claim_first_name c) (firstName old),
             lastName := set_value (claim_last_name c) (lastName old),
             profileImageUrl := set_value (claim_profile_image_url c) (profileImageUrl old),
             updatedAt := Some now\<rparr>"
      using upsertUser_updated_row [OF ok', of old] old id by simp
    have "getUser i (snd (upsertUser_auth now uuid c users)) = Some row"
      using ok id by (simp add: upsertUser_auth_def upsertUser_lookup)
    moreover have "role row = role old" by (subst shape) simp
    moreover have "email row = set_value (claim_email c) (email old)" by (subst shape) simp
    moreover have "firstName row = set_value (claim_first_name c) (firstName old)"
      by (subst shape) simp
    moreover have "lastName row = set_value (claim_last_name c) (lastName old)"
      by (subst shape) simp
    moreover have "profileImageUrl row = set_value (claim_profile_image_url c) (profileImageUrl old)"
      by (subst shape) simp
    ultimately show ?thesis using id by blast
  qed
  show ?thesis
    using keep keep_verify upsertUser_auth_success_iff [of c _ users _ now uuid] row
    by blast
qed

text \<open>
  A stored agent logs in again with claims that carry a new email and no first name:
  the email is replaced, the first name stays, the role is still agent.
\<close>

theorem claims_upsert_keeps_role_witness:
  "getUser ''u1'' (snd (upsertUser_auth 77 ''fresh-uuid'' fresh_claims [agent_row])) =
     Some (agent_row\<lparr>email := Some ''a@b.com'', updatedAt := Some 77\<rparr>)
   \<and> role (agent_row\<lparr>email := Some ''a@b.com'', updatedAt := Some 77\<rparr>) = ''agent''
   \<and> firstName (agent_row\<lparr>email := Some ''a@b.com'', updatedAt := Some 77\<rparr>) = Some ''Ann''"
proof -
  let ?row = "agent_row\<lparr>email := Some ''a@b.com'', updatedAt := Some 77\<rparr>"
  have sub: "claim_sub fresh_claims = Some ''u1''"
    by (simp add: fresh_claims_def)
  have old: "getUser ''u1'' [agent_row] = Some agent_row"
    by (simp add: getUser_def agent_row_def)
  have ok: "fst (upsertUser_auth 77 ''fresh-uuid'' fresh_claims [agent_row]) = Inr ?row"
    by (simp add: agent_row_def fresh_claims_def upsertUser_auth_def upsertUser_def getUser_def
        email_taken_def Let_def)
  from claims_upsert_keeps_role [of "[agent_row]" 77 "''fresh-uuid''" fresh_claims fresh_tokens]
    sub old ok
  have "getUser ''u1'' (snd (upsertUser_auth 77 ''fresh-uuid'' fresh_claims [agent_row])) = Some ?row
      \<and> role ?row = role agent_row
      \<and> firstName ?row = set_value (claim_first_name fresh_claims) (firstName agent_row)"
    by blast
  then show ?thesis
    by (simp add: agent_row_def fresh_claims_def)
qed

section \<open>Properties of the role gate\<close>

lemma requireRole_after_gate:
  assumes "isAuthenticated now p req = (Next, req', calls)"
    and "req_user req' = Some user" and "user_claims user = Some c"
    and "lookup (claim_sub c) = Inr dbUser"
  shows "requireRole allowedRoles now p lookup req =
           (let userRole =
              (case dbUser of None \<Rightarrow> ''buyer'' | Some d \<Rightarrow> if role d = [] then ''buyer'' else role d)
            in if userRole \<in> set allowedRoles then (Next, req', calls)
               else (forbidden allowedRoles userRole, req', calls))"
  using assms by (simp add: requireRole_def Let_def)

text \<open>
  C3. When the authentication gate lets the request through and the session carries
  claims, \<open>requireRole\<close> asks the storage for the user of the subject id and decides on
  the stored role alone: a missing user counts as \<open>buyer\<close>; a role outside the allow-list
  is answered 403 with the allow-list and the caller's role in the body; a role inside it
  passes the request on, as the gate left it. So a buyer is refused by
  \<open>requireRole [agent]\<close> and an agent passes.
\<close>

theorem role_gate_contract:
  assumes "isAuthenticated now p req = (Next, req', calls)"
    and "req_user req' = Some user" and "user_claims user = Some c"
    and "lookup (claim_sub c) = Inr dbUser"
  shows "requireRole allowedRoles now p lookup req =
           (let userRole =
              (case dbUser of None \<Rightarrow> ''buyer'' | Some d \<Rightarrow> if role d = [] then ''buyer'' else role d)
            in if userRole \<in> set allowedRoles then (Next, req', calls)
               else (Respond 403
                       (JObj [(''message'', JStr ''Insufficient permissions''),
                              (''required'', JArr (map JStr allowedRoles)),
                              (''current'', JStr userRole)]),
                     req', calls))
         \<and> (\<forall>d. dbUser = Some d \<and> role d = ''buyer'' \<longrightarrow>
               fst (requireRole [''agent''] now p lookup req) = forbidden [''agent''] ''buyer''
               \<and> fst (requireAgent now p lookup req) = forbidden [''agent''] ''buyer'')
         \<and> (\<forall>d. dbUser = Some d \<and> role d = ''agent'' \<longrightarrow>
               fst (requireRole [''agent''] now p lookup req) = Next
               \<and> fst (requireAgent now p lookup req) = Next)
         \<and> (dbUser = None \<longrightarrow>
               fst (requireRole [''agent''] now p lookup req) = forbidden [''agent''] ''buyer''
               \<and> fst (requireRole [''buyer''] now p lookup req) = Next)"
proof -
  have run: "requireRole roles now p lookup req =
           (let userRole =
              (case dbUser of None \<Rightarrow> ''buyer'' | Some d \<Rightarrow> if role d = [] then ''buyer'' else role d)
            in if userRole \<in> set roles then (Next, req', calls)
               else (forbidden roles userRole, req', calls))" for roles
    using assms by (rule requireRole_after_gate)
  have "requireRole allowedRoles now p lookup req =
           (let userRole =
              (case dbUser of None \<Rightarrow> ''buyer'' | Some d \<Rightarrow> if role d = [] then ''buyer'' else role d)
            in if userRole \<in> set allowedRoles then (Next, req', calls)
               else (Respond 403
                       (JObj [(''message'', JStr ''Insufficient permissions''),
                              (''required'', JArr (map JStr allowedRoles)),
                              (''current'', JStr userRole)]),
                     req', calls))"
    by (simp add: run forbidden_def Let_def)
  moreover have "\<forall>d. dbUser = Some d \<and> role d = ''buyer'' \<longrightarrow>
               fst (requireRole [''agent''] now p lookup req) = forbidden [''agent''] ''buyer''
               \<and> fst (requireAgent now p lookup req) = forbidden [''agent''] ''buyer''"
    by (simp add: run requireAgent_def Let_def)
  moreover have "\<forall>d. dbUser = Some d \<and> role d = ''agent'' \<longrightarrow>
               fst (requireRole [''agent''] now p lookup req) = Next
               \<and> fst (requireAgent now p lookup req) = Next"
    by (simp add: run requireAgent_def Let_def)
  moreover have "dbUser = None \<longrightarrow>
               fst (requireRole [''agent''] now p lookup req) = forbidden [''agent''] ''buyer''
               \<and> fst (requireRole [''buyer''] now p lookup req) = Next"
    by (simp add: run Let_def)
  ultimately show ?thesis by blast
qed

text \<open>An unexpired session of user \<open>u1\<close>, stored once as a buyer and once as an agent.\<close>

theorem role_gate_contract_witness:
  "fst (requireRole [''agent''] 900 Map.empty (working_storage [buyer_row]) stale_request) =
     forbidden [''agent''] ''buyer''
   \<and> fst (requireRole [''agent''] 900 Map.empty (working_storage [agent_row]) stale_request) = Next"
proof -
  let ?c = "fresh_claims\<lparr>claim_exp := Some 1000\<rparr>"
  have gate: "isAuthenticated 900 Map.empty stale_request = (Next, stale_request, [])"
    by (simp add: isAuthenticated_def stale_request_def stale_user_def)
  have user: "req_user stale_request = Some stale_user"
    by (simp add: stale_request_def)
  have claims: "user_claims stale_user = Some ?c"
    by (simp add: stale_user_def)
  have buyer: "working_storage [buyer_row] (claim_sub ?c) = Inr (Some buyer_row)"
    by (simp add: working_storage_def getUser_def buyer_row_def agent_row_def fresh_claims_def)
  have agent: "working_storage [agent_row] (claim_sub ?c) = Inr (Some agent_row)"
    by (simp add: working_storage_def getUser_def agent_row_def fresh_claims_def)
  have "role buyer_row = ''buyer''"
    by (simp add: buyer_row_def agent_row_def)
  with role_gate_contract
    [where lookup = "working_storage [buyer_row]" and c = ?c and dbUser = "Some buyer_row"
      and allowedRoles = "[]", OF gate user claims buyer]
  have "fst (requireRole [''agent''] 900 Map.empty (working_storage [buyer_row]) stale_request) =
      forbidden [''agent''] ''buyer''"
    by blast
  moreover
  have "role agent_row = ''agent''"
    by (simp add: agent_row_def)
  with role_gate_contract
    [where lookup = "working_storage [agent_row]" and c = ?c and dbUser = "Some agent_row"
      and allowedRoles = "[]", OF gate user claims agent]
  have "fst (requireRole [''agent''] 900 Map.empty (working_storage [agent_row]) stale_request) = Next"
    by blast
  ultimately show ?thesis by simp
qed

section \<open>Properties of the self-service profile update\<close>

lemma fold_reduce_lookup:
  "map_of (fold (\<lambda>key obj.
             case map_of updates key of
               None \<Rightarrow> obj
             | Some v \<Rightarrow> if string_or_null v then AList.update key v obj else obj) keys acc) k =
     (if k \<in> set keys \<and> accepted updates k then map_of updates k else map_of acc k)"
  by (induction keys arbitrary: acc)
    (auto simp: accepted_def update_conv' split: option.splits)

lemma filteredUpdates_lookup:
  "map_of (filteredUpdates updates) k =
     (if k \<in> set allowedFields \<and> accepted updates k then map_of updates k else None)"
proof -
  have "accepted updates k \<Longrightarrow> k \<in> fst ` set updates"
    by (auto simp: accepted_def split: option.splits dest: map_of_SomeD intro: rev_image_eqI)
  then show ?thesis
    unfolding filteredUpdates_def fold_reduce_lookup by auto
qed

lemma filteredUpdates_empty_iff:
  "filteredUpdates updates = [] \<longleftrightarrow> \<not> accepted updates ''phone'' \<and> \<not> accepted updates ''bio''"
proof -
  have "filteredUpdates updates = [] \<longleftrightarrow> map_of (filteredUpdates updates) = Map.empty"
    by simp
  also have "\<dots> \<longleftrightarrow> (\<forall>k. map_of (filteredUpdates updates) k = None)"
    by (simp add: fun_eq_iff)
  also have "\<dots> \<longleftrightarrow> \<not> accepted updates ''phone'' \<and> \<not> accepted updates ''bio''"
    by (auto simp: filteredUpdates_lookup allowedFields_def accepted_def split: option.splits)
  finally show ?thesis .
qed

lemma filtered_field:
  assumes "k \<in> set allowedFields"
  shows "upsert_field (map_of (filteredUpdates updates) k) = upsert_field (map_of updates k)"
proof (cases "map_of updates k")
  case None
  then show ?thesis by (simp add: filteredUpdates_lookup)
next
  case (Some v)
  with assms show ?thesis
    by (cases v) (simp_all add: filteredUpdates_lookup accepted_def)
qed

lemma patch_object:
  assumes "req_user req = Some user" and "user_claims user = Some c"
  shows "patch_auth_user now uuid req (Some (JObj updates)) users =
           (if \<not> accepted updates ''phone'' \<and> \<not> accepted updates ''bio''
            then (no_valid_fields, users)
            else (case upsertUser now uuid (profile_delta (claim_sub c) updates) users of
                    (Inl err, users') \<Rightarrow> (failed_to_update, users')
                  | (Inr updatedUser, users') \<Rightarrow> (RespondUser updatedUser, users')))"
  using assms
  by (simp add: patch_auth_user_def Let_def filteredUpdates_empty_iff filtered_field
      allowedFields_def profile_delta_def)


lemma upsertUser_frame:
  assumes "getUser j users = Some u"
  shows "\<exists>u'. getUser j (snd (upsertUser now uuid (profile_delta sub updates) users)) = Some u'
           \<and> user_id u' = user_id u \<and> role u' = role u \<and> email u' = email u
           \<and> firstName u' = firstName u \<and> lastName u' = lastName u
           \<and> profileImageUrl u' = profileImageUrl u \<and> createdAt u' = createdAt u"
proof (cases "fst (upsertUser now uuid (profile_delta sub updates) users)")
  case (Inl e)
  then show ?thesis using assms by (simp add: upsertUser_lookup)
next
  case (Inr row)
  show ?thesis
  proof (cases "j = user_id row")
    case True
    with assms have "getUser (user_id row) users = Some u" by simp
    from upsertUser_updated_row [OF Inr this]
    have "row = u\<lparr>phone := set_value (upsert_field (map_of updates ''phone'')) (phone u),
                  bio := set_value (upsert_field (map_of updates ''bio'')) (bio u),
                  updatedAt := Some now\<rparr>"
      by (simp add: profile_delta_def)
    then have "user_id row = user_id u \<and> role row = role u \<and> email row = email u
           \<and> firstName row = firstName u \<and> lastName row = lastName u
           \<and> profileImageUrl row = profileImageUrl u \<and> createdAt row = createdAt u"
      by simp
    with Inr True show ?thesis by (simp add: upsertUser_lookup)
  next
    case False
    with Inr assms show ?thesis by (simp add: upsertUser_lookup)
  qed
qed

lemma patch_object_table:
  assumes "req_user req = Some user" and "user_claims user = Some c"
  shows "snd (patch_auth_user now uuid req (Some (JObj updates)) users) =
           (if \<not> accepted updates ''phone'' \<and> \<not> accepted updates ''bio'' then users
            else snd (upsertUser now uuid (profile_delta (claim_sub c) updates) users))"
  by (simp add: patch_object [OF assms] split: prod.splits sum.splits)

lemma patch_other_table:
  assumes "\<forall>updates. body \<noteq> Some (JObj updates)"
  shows "snd (patch_auth_user now uuid req body users) = users"
proof (cases body)
  case None
  then show ?thesis
    by (simp add: patch_auth_user_def split: option.splits)
next
  case (Some b)
  with assms show ?thesis
    by (cases b) (simp_all add: patch_auth_user_def split: option.splits)
qed

lemma patch_unauthenticated_table:
  assumes "req_user req = None \<or> (\<exists>user. req_user req = Some user \<and> user_claims user = None)"
  shows "snd (patch_auth_user now uuid req body users) = users"
  using assms by (auto simp: patch_auth_user_def)

lemma patch_frame:
  assumes "getUser j users = Some u"
  shows "\<exists>u'. getUser j (snd (patch_auth_user now uuid req body users)) = Some u'
           \<and> user_id u' = user_id u \<and> role u' = role u \<and> email u' = email u
           \<and> firstName u' = firstName u \<and> lastName u' = lastName u
           \<and> profileImageUrl u' = profileImageUrl u \<and> createdAt u' = createdAt u"
proof (cases "\<exists>user c updates. req_user req = Some user \<and> user_claims user = Some c
    \<and> body = Some (JObj updates)")
  case True
  then obtain user c updates where "req_user req = Some user" and "user_claims user = Some c"
    and "body = Some (JObj updates)"
    by blast
  then show ?thesis
    using upsertUser_frame [OF assms, of now uuid "claim_sub c" updates] assms
    by (simp add: patch_object_table)
next
  case False
  then have "snd (patch_auth_user now uuid req body users) = users"
    using patch_other_table [of body now uuid req users]
      patch_unauthenticated_table [of req now uuid body users]
    by (cases "req_user req") auto
  with assms show ?thesis by simp
qed

lemma patch_depends_on_allowed_only:
  assumes "req_user req = Some user" and "user_claims user = Some c"
    and "map_of updates' ''phone'' = map_of updates ''phone''"
    and "map_of updates' ''bio'' = map_of updates ''bio''"
  shows "patch_auth_user now uuid req (Some (JObj updates')) users =
         patch_auth_user now uuid req (Some (JObj updates)) users"
  using assms(3,4)
  by (simp add: patch_object [OF assms(1,2)] accepted_def profile_delta_def)

lemma patch_applies:
  assumes "req_user req = Some user" and "user_claims user = Some c"
    and "claim_sub c = Some i" and "getUser i users = Some old"
    and "\<not> email_taken users i (email old)"
    and "accepted updates ''phone'' \<or> accepted updates ''bio''"
  shows "patch_auth_user now uuid req (Some (JObj updates)) users =
           (RespondUser
              (old\<lparr>phone := set_value (upsert_field (map_of updates ''phone'')) (phone old),
                    bio := set_value (upsert_field (map_of updates ''bio'')) (bio old),
                    updatedAt := Some now\<rparr>),
            map (\<lambda>u. if user_id u = i
                      then old\<lparr>phone := set_value (upsert_field (map_of updates ''phone'')) (phone old),
                               bio := set_value (upsert_field (map_of updates ''bio'')) (bio old),
                               updatedAt := Some now\<rparr>
                      else u) users)"
  using assms(3-6)
  by (auto simp: patch_object [OF assms(1,2)] upsertUser_def profile_delta_def Let_def)

lemma patch_success_needs_field:
  assumes "fst (patch_auth_user now uuid req body users) = RespondUser row"
  shows "\<exists>updates. body = Some (JObj updates)
           \<and> (accepted updates ''phone'' \<or> accepted updates ''bio'')"
proof -
  have neq: "failed_to_update \<noteq> RespondUser row" "no_valid_fields \<noteq> RespondUser row"
    "invalid_input \<noteq> RespondUser row"
    by (simp_all add: failed_to_update_def no_valid_fields_def invalid_input_def)
  from assms neq obtain user c where u: "req_user req = Some user" and c: "user_claims user = Some c"
    by (auto simp: patch_auth_user_def split: option.splits)
  from assms neq u c obtain updates where body: "body = Some (JObj updates)"
    by (auto simp: patch_auth_user_def split: option.splits json.splits)
  from assms neq have "accepted updates ''phone'' \<or> accepted updates ''bio''"
    unfolding body patch_object [OF u c] by (auto split: if_splits)
  with body show ?thesis by blast
qed


text \<open>
  C8. For an authenticated request (the session carries claims):
  \<^item> whatever the body, every stored user is still stored afterwards with the same id,
    role, email, first name, last name, profile image and creation time;
  \<^item> two object bodies that agree on \<open>phone\<close> and \<open>bio\<close> get the same response and leave
    the same table, so every other key is dropped without an error;
  \<^item> an object body that offers no string or \<^verbatim>\<open>null\<close> for \<open>phone\<close> or \<open>bio\<close> is answered
    400 \<open>No valid fields to update\<close> and the table is unchanged;
  \<^item> otherwise the caller's stored row gets the offered phone and bio (and a new update
    time) and is the response;
  \<^item> a user row is the response only if the body is an object that offers \<open>phone\<close> or
    \<open>bio\<close>.
\<close>

theorem profile_update_contract:
  assumes "req_user req = Some user" and "user_claims user = Some c"
  shows
    "(\<forall>body j u. getUser j users = Some u \<longrightarrow>
        (\<exists>u'. getUser j (snd (patch_auth_user now uuid req body users)) = Some u'
           \<and> user_id u' = user_id u \<and> role u' = role u \<and> email u' = email u
           \<and> firstName u' = firstName u \<and> lastName u' = lastName u
           \<and> profileImageUrl u' = profileImageUrl u \<and> createdAt u' = createdAt u))
     \<and> (\<forall>updates updates'.
           map_of updates' ''phone'' = map_of updates ''phone''
           \<and> map_of updates' ''bio'' = map_of updates ''bio'' \<longrightarrow>
           patch_auth_user now uuid req (Some (JObj updates')) users =
           patch_auth_user now uuid req (Some (JObj updates)) users)
     \<and> (\<forall>updates. \<not> accepted updates ''phone'' \<and> \<not> accepted updates ''bio'' \<longrightarrow>
           patch_auth_user now uuid req (Some (JObj updates)) users =
             (Respond 400 (JObj [(''message'', JStr ''No valid fields to update'')]), users))
     \<and> (\<forall>updates i old.
           claim_sub c = Some i \<and> getUser i users = Some old \<and> \<not> email_taken users i (email old)
           \<and> (accepted updates ''phone'' \<or> accepted updates ''bio'') \<longrightarrow>
           fst (patch_auth_user now uuid req (Some (JObj updates)) users) =
             RespondUser
               (old\<lparr>phone := set_value (upsert_field (map_of updates ''phone'')) (phone old),
                     bio := set_value (upsert_field (map_of updates ''bio'')) (bio old),
                     updatedAt := Some now\<rparr>)
           \<and> getUser i (snd (patch_auth_user now uuid req (Some (JObj updates)) users)) =
               Some
                 (old\<lparr>phone := set_value (upsert_field (map_of updates ''phone'')) (phone old),
                       bio := set_value (upsert_field (map_of updates ''bio'')) (bio old),
                       updatedAt := Some now\<rparr>))
     \<and> (\<forall>body row. fst (patch_auth_user now uuid req body users) = RespondUser row \<longrightarrow>
           (\<exists>updates. body = Some (JObj updates)
              \<and> (accepted updates ''phone'' \<or> accepted updates ''bio'')))"
proof (intro conjI allI impI)
  fix body j u
  assume "getUser j users = Some u"
  then show "\<exists>u'. getUser j (snd (patch_auth_user now uuid req body users)) = Some u'
           \<and> user_id u' = user_id u \<and> role u' = role u \<and> email u' = email u
           \<and> firstName u' = firstName u \<and> lastName u' = lastName u
           \<and> profileImageUrl u' = profileImageUrl u \<and> createdAt u' = createdAt u"
    by (rule patch_frame)
next
  fix updates updates' :: "(string \<times> json) list"
  assume "map_of updates' ''phone'' = map_of updates ''phone''
      \<and> map_of updates' ''bio'' = map_of updates ''bio''"
  then show "patch_auth_user now uuid req (Some (JObj updates')) users =
      patch_auth_user now uuid req (Some (JObj updates)) users"
    using patch_depends_on_allowed_only [OF assms] by blast
next
  fix updates
  assume "\<not> accepted updates ''phone'' \<and> \<not> accepted updates ''bio''"
  then show "patch_auth_user now uuid req (Some (JObj updates)) users =
      (Respond 400 (JObj [(''message'', JStr ''No valid fields to update'')]), users)"
    by (simp add: patch_object [OF assms] no_valid_fields_def)
next
  fix updates :: "(string \<times> json) list" and i and old :: User
  let ?row = "old\<lparr>phone := set_value (upsert_field (map_of updates ''phone'')) (phone old),
                   bio := set_value (upsert_field (map_of updates ''bio'')) (bio old),
                   updatedAt := Some now\<rparr>"
  assume h: "claim_sub c = Some i \<and> getUser i users = Some old
      \<and> \<not> email_taken users i (email old)
      \<and> (accepted updates ''phone'' \<or> accepted updates ''bio'')"
  then have run: "patch_auth_user now uuid req (Some (JObj updates)) users =
      (RespondUser ?row, map (\<lambda>u. if user_id u = i then ?row else u) users)"
    using patch_applies [OF assms, of i users old updates now uuid] by blast
  show "fst (patch_auth_user now uuid req (Some (JObj updates)) users) = RespondUser ?row"
    by (simp add: run)
  have "user_id old = i" using h getUser_Some_id by blast
  then show "getUser i (snd (patch_auth_user now uuid req (Some (JObj updates)) users)) = Some ?row"
    using h by (simp add: run getUser_replace)
next
  fix body row
  assume "fst (patch_auth_user now uuid req body users) = RespondUser row"
  then show "\<exists>updates. body = Some (JObj updates)
      \<and> (accepted updates ''phone'' \<or> accepted updates ''bio'')"
    by (rule patch_success_needs_field)
qed

text \<open>
  The body \<open>{"role": "admin", "bio": "hi"}\<close> sent by a stored agent: the bio is applied,
  the role is still agent; the body \<open>{"role": "admin"}\<close> alone is answered 400.
\<close>

theorem profile_update_contract_witness:
  "fst (patch_auth_user 77 ''fresh-uuid'' stale_request
          (Some (JObj [(''role'', JStr ''admin''), (''bio'', JStr ''hi'')])) [agent_row]) =
     RespondUser (agent_row\<lparr>bio := Some ''hi'', updatedAt := Some 77\<rparr>)
   \<and> role (agent_row\<lparr>bio := Some ''hi'', updatedAt := Some 77\<rparr>) = ''agent''
   \<and> patch_auth_user 77 ''fresh-uuid'' stale_request
        (Some (JObj [(''role'', JStr ''admin'')])) [agent_row] =
       (Respond 400 (JObj [(''message'', JStr ''No valid fields to update'')]), [agent_row])"
proof -
  let ?c = "fresh_claims\<lparr>claim_exp := Some 1000\<rparr>"
  let ?body = "[(''role'', JStr ''admin''), (''bio'', JStr ''hi'')]"
  have user: "req_user stale_request = Some stale_user"
    by (simp add: stale_request_def)
  have claims: "user_claims stale_user = Some ?c"
    by (simp add: stale_user_def)
  note contract = profile_update_contract
    [OF user claims, of "[agent_row]" 77 "''fresh-uuid''"]
  have applied: "claim_sub ?c = Some ''u1'' \<and> getUser ''u1'' [agent_row] = Some agent_row
      \<and> \<not> email_taken [agent_row] ''u1'' (email agent_row)
      \<and> (accepted ?body ''phone'' \<or> accepted ?body ''bio'')"
    by (simp add: fresh_claims_def getUser_def agent_row_def email_taken_def accepted_def)
  have dropped: "\<not> accepted [(''role'', JStr ''admin'')] ''phone''
      \<and> \<not> accepted [(''role'', JStr ''admin'')] ''bio''"
    by (simp add: accepted_def)
  from contract applied
  have "fst (patch_auth_user 77 ''fresh-uuid'' stale_request (Some (JObj ?body)) [agent_row]) =
      RespondUser
        (agent_row\<lparr>phone := set_value (upsert_field (map_of ?body ''phone'')) (phone agent_row),
                    bio := set_value (upsert_field (map_of ?body ''bio'')) (bio agent_row),
                    updatedAt := Some 77\<rparr>)"
    by blast
  moreover from contract dropped
  have "patch_auth_user 77 ''fresh-uuid'' stale_request
        (Some (JObj [(''role'', JStr ''admin'')])) [agent_row] =
       (Respond 400 (JObj [(''message'', JStr ''No valid fields to update'')]), [agent_row])"
    by blast
  ultimately show ?thesis
    by (simp add: agent_row_def)
qed

section \<open>Properties of the favorites\<close>

lemma getFavorite_append:
  "getFavorite u p (favorites @ [row]) =
     (case getFavorite u p favorites of
        Some f \<Rightarrow> Some f
      | None \<Rightarrow> if userId row = u \<and> propertyId row = p then Some row else None)"
  by (induction favorites) (auto simp: getFavorite_def)

lemma getFavorite_None_iff:
  "getFavorite u p favorites = None \<longleftrightarrow>
     \<not> list_ex (\<lambda>f. userId f = u \<and> propertyId f = p) favorites"
  by (auto simp: getFavorite_def find_None_iff list_ex_iff)

lemma addFavorite_existing:
  assumes "getFavorite (ins_userId ins) (ins_propertyId ins) favorites = Some existing"
  shows "addFavorite now uuid user_ids property_ids ins favorites = (Inr existing, favorites)"
proof -
  have "list_ex (\<lambda>f. userId f = ins_userId ins \<and> propertyId f = ins_propertyId ins) favorites"
    using assms getFavorite_None_iff [of "ins_userId ins" "ins_propertyId ins" favorites] by simp
  then have "list_ex (\<lambda>f. fav_id f = uuid
      \<or> userId f = ins_userId ins \<and> propertyId f = ins_propertyId ins) favorites"
    by (auto simp: list_ex_iff)
  with assms show ?thesis
    by (simp add: addFavorite_def Let_def)
qed

lemma addFavorite_result_is_stored:
  assumes "addFavorite now uuid user_ids property_ids ins favorites = (Inr f, favorites')"
  shows "getFavorite (ins_userId ins) (ins_propertyId ins) favorites' = Some f"
proof (cases "list_ex (\<lambda>f. fav_id f = uuid
      \<or> userId f = ins_userId ins \<and> propertyId f = ins_propertyId ins) favorites")
  case True
  with assms show ?thesis
    by (auto simp: addFavorite_def Let_def split: option.splits)
next
  case False
  then have "getFavorite (ins_userId ins) (ins_propertyId ins) favorites = None"
    by (auto simp: getFavorite_None_iff list_ex_iff)
  with False assms show ?thesis
    by (auto simp: addFavorite_def Let_def getFavorite_append split: if_splits)
qed

lemma addFavorite_unique:
  assumes "unique_pairs favorites"
  shows "unique_pairs (snd (addFavorite now uuid user_ids property_ids ins favorites))"
proof (cases "list_ex (\<lambda>f. fav_id f = uuid
      \<or> userId f = ins_userId ins \<and> propertyId f = ins_propertyId ins) favorites")
  case True
  with assms show ?thesis
    by (simp add: addFavorite_def Let_def split: option.splits)
next
  case False
  then have "(ins_userId ins, ins_propertyId ins) \<notin> (\<lambda>f. (userId f, propertyId f)) ` set favorites"
    by (auto simp: list_ex_iff)
  with False assms show ?thesis
    by (simp add: addFavorite_def Let_def unique_pairs_def)
qed

lemma removeFavorite_unique:
  "unique_pairs favorites \<Longrightarrow> unique_pairs (snd (removeFavorite u p favorites))"
  by (simp add: removeFavorite_def unique_pairs_def distinct_map_filter)

text \<open>
  C10. When a favorite for the user and property of the call is stored, \<open>addFavorite\<close>
  returns that record and leaves the table as it is. Hence a repeated call, whatever the
  clock, the generated id and the referenced tables then are, returns the record the
  first call returned and changes nothing. A table without two favorites for one user
  and property stays so under \<open>addFavorite\<close> and \<open>removeFavorite\<close>, and the empty table
  is one.
\<close>

theorem addFavorite_idempotent:
  "(\<forall>existing. getFavorite (ins_userId ins) (ins_propertyId ins) favorites = Some existing \<longrightarrow>
      addFavorite now uuid user_ids property_ids ins favorites = (Inr existing, favorites))
   \<and> (\<forall>f favorites' now' uuid' user_ids' property_ids'.
        addFavorite now uuid user_ids property_ids ins favorites = (Inr f, favorites') \<longrightarrow>
        addFavorite now' uuid' user_ids' property_ids' ins favorites' = (Inr f, favorites'))
   \<and> (unique_pairs favorites \<longrightarrow>
        unique_pairs (snd (addFavorite now uuid user_ids property_ids ins favorites))
        \<and> unique_pairs (snd (removeFavorite u p favorites)))
   \<and> unique_pairs []"
proof (intro conjI allI impI)
  fix existing
  assume "getFavorite (ins_userId ins) (ins_propertyId ins) favorites = Some existing"
  then show "addFavorite now uuid user_ids property_ids ins favorites = (Inr existing, favorites)"
    by (rule addFavorite_existing)
next
  fix f favorites' now' uuid' user_ids' property_ids'
  assume "addFavorite now uuid user_ids property_ids ins favorites = (Inr f, favorites')"
  then have "getFavorite (ins_userId ins) (ins_propertyId ins) favorites' = Some f"
    by (rule addFavorite_result_is_stored)
  then show "addFavorite now' uuid' user_ids' property_ids' ins favorites' = (Inr f, favorites')"
    by (rule addFavorite_existing)
next
  assume "unique_pairs favorites"
  then show "unique_pairs (snd (addFavorite now uuid user_ids property_ids ins favorites))"
    by (rule addFavorite_unique)
next
  assume "unique_pairs favorites"
  then show "unique_pairs (snd (removeFavorite u p favorites))"
    by (rule removeFavorite_unique)
next
  show "unique_pairs []"
    by (simp add: unique_pairs_def)
qed

text \<open>A first call on the empty table, then the same call again.\<close>

theorem addFavorite_idempotent_witness:
  "addFavorite 5 ''f1'' [''u1''] [''p1''] \<lparr>ins_userId = ''u1'', ins_propertyId = ''p1''\<rparr> [] =
     (Inr first_favorite, [first_favorite])
   \<and> addFavorite 9 ''f2'' [''u1''] [''p1''] \<lparr>ins_userId = ''u1'', ins_propertyId = ''p1''\<rparr>
        [first_favorite] =
     (Inr first_favorite, [first_favorite])
   \<and> unique_pairs [first_favorite]"
proof -
  let ?ins = "\<lparr>ins_userId = ''u1'', ins_propertyId = ''p1''\<rparr>"
  have first: "addFavorite 5 ''f1'' [''u1''] [''p1''] ?ins [] = (Inr first_favorite, [first_favorite])"
    by (simp add: addFavorite_def Let_def first_favorite_def)
  have again: "\<forall>f favorites' now' uuid' user_ids' property_ids'.
        addFavorite 5 ''f1'' [''u1''] [''p1''] ?ins [] = (Inr f, favorites') \<longrightarrow>
        addFavorite now' uuid' user_ids' property_ids' ?ins favorites' = (Inr f, favorites')"
    by (rule addFavorite_idempotent
        [of ?ins "[]" 5 "''f1''" "[''u1'']" "[''p1'']", THEN conjunct2, THEN conjunct1])
  have "addFavorite 9 ''f2'' [''u1''] [''p1''] ?ins [first_favorite] =
      (Inr first_favorite, [first_favorite])"
    by (rule again [rule_format, OF first])
  moreover have "unique_pairs [first_favorite]"
    by (simp add: unique_pairs_def)
  ultimately show ?thesis using first by (simp del: split_paired_All)
qed

section \<open>Properties of the callback\<close>

text \<open>
  C7 (as amended). When the provider round trip ends without a verified user and
  without an error, both callback handlers redirect to \<open>/api/login\<close> and make no call
  on the session; the response carries nothing of the provider's. When it ends in an
  error, both handlers pass that error to the framework's error handler and do not
  redirect. When it ends with a user and regenerating the session and logging in
  succeed, the handler of replitAuth.ts redirects to \<open>/\<close>, and so does the handler of
  googleAuth.ts once the session is saved.
\<close>

theorem callback_outcomes:
  "callback AuthNoUser regenerate logIn save = (Redirect ''/api/login'', [])
   \<and> callback_google AuthNoUser regenerate logIn save = (Redirect ''/api/login'', [])
   \<and> callback (AuthError err) regenerate logIn save = (NextError err, [])
   \<and> callback_google (AuthError err) regenerate logIn save = (NextError err, [])
   \<and> fst (callback (AuthUser user) None None save) = Redirect ''/''
   \<and> fst (callback_google (AuthUser user) None None None) = Redirect ''/''"
  by (simp add: callback_def callback_google_def)

text \<open>
  C7 as stated fails: the token exchange is refused with \<open>invalid_grant\<close>, and the handler
  passes the error on instead of redirecting to \<open>/api/login\<close>.
\<close>

theorem callback_error_counterexample:
  "fst (callback (AuthError ''invalid_grant'') None None None) = NextError ''invalid_grant''
   \<and> fst (callback (AuthError ''invalid_grant'') None None None) \<noteq> Redirect ''/api/login''
   \<and> fst (callback_google (AuthError ''invalid_grant'') None None None) \<noteq> Redirect ''/api/login''"
  by (simp add: callback_def callback_google_def)

text \<open>
  C6. With a verified user, a regenerated session and a successful login, the handler
  of replitAuth.ts answers a failing \<^verbatim>\<open>req.session.save\<close> with the redirect to \<open>/\<close>
  all the same, while the handler of googleAuth.ts passes the error on. The other steps
  are as the claim has them: the session is regenerated before the user is logged in, a
  failing regeneration ends in the error handler before any login, a failing login ends
  in the error handler, and the redirect to \<open>/\<close> comes after regenerating, logging in
  and saving, in this order.
\<close>

theorem callback_save_failure:
  "callback (AuthUser user) None None (Some saveErr) =
     (Redirect ''/'', [Regenerate, LogIn user, Save])
   \<and> callback_google (AuthUser user) None None (Some saveErr) =
     (NextError saveErr, [Regenerate, LogIn user, Save])
   \<and> callback (AuthUser user) (Some sessionErr) logIn save = (NextError sessionErr, [Regenerate])
   \<and> callback (AuthUser user) None (Some loginErr) save =
     (NextError loginErr, [Regenerate, LogIn user])
   \<and> callback (AuthUser user) None None None = (Redirect ''/'', [Regenerate, LogIn user, Save])"
  by (simp add: callback_def callback_google_def)

section \<open>Properties of the strategy registration\<close>














end
